theory Spec2Isabelle
  imports Main
begin

section \<open>The scroll directive: data model\<close>

text \<open>
  The directive of \<open>src/unnamed/part_000\<close> (class \<open>ScrollDirective\<close>) renders the
  window \<open>first..last\<close> of a list of items and forwards its configuration to a
  \<open>VirtualScroller\<close>. JavaScript values that the directive only passes around are
  modelled by \<open>jsval\<close>; \<open>Obj n\<close> is a reference to the object with identity \<open>n\<close>.
\<close>

datatype jsval = Undefined | Null | Bool bool | Num int | Str string | Obj nat

text \<open>
  A JavaScript array (\<open>Array<any>\<close>): its length is an unsigned 32-bit integer below
  \<open>2^32\<close>. \<open>elems\<close> lists the elements; \<open>array xs\<close> is the array literal with the
  elements \<open>xs\<close>.
\<close>

typedef jsarray = "{xs :: jsval list. length xs < 2 ^ 32}"
  by (rule exI [of _ "[]"]) simp

setup_lifting type_definition_jsarray

lift_definition elems :: "jsarray \<Rightarrow> jsval list" is "\<lambda>xs. xs" .

lift_definition array :: "jsval list \<Rightarrow> jsarray" is "\<lambda>xs. if length xs < 2 ^ 32 then xs else []"
  by simp

text \<open>\<open>items[i]\<close> on an array: \<open>undefined\<close> outside \<open>0..length-1\<close>.\<close>

definition js_index :: "jsarray \<Rightarrow> int \<Rightarrow> jsval" where
  "js_index xs i =
     (if 0 \<le> i \<and> i < int (length (elems xs)) then elems xs ! nat i else Undefined)"

text \<open>
  Numbers are IEEE doubles. The range of a notification is a pair of integers (the
  specification's payload \<open>{first: integer, last: integer}\<close>), and an integer-valued
  double is modelled by its value. Comparisons of doubles are exact. Adding one is exact
  up to \<open>2^53\<close>; beyond, the sum lies between two doubles and is rounded to the nearest,
  a tie going to the one with the even mantissa: from \<open>2^53\<close> to \<open>2^54\<close> the doubles are
  the even integers and the tie goes to the multiple of 4, from \<open>2^54\<close> on the doubles
  are at least 4 apart and the sum is rounded back. \<open>js_plus1 n\<close> is \<open>n + 1\<close> as the
  code computes it (\<open>this.last + 1\<close> and \<open>i++\<close>), for \<open>n\<close> a double.
\<close>

definition js_plus1 :: "int \<Rightarrow> int" where
  "js_plus1 n =
     (if \<bar>n + 1\<bar> \<le> 2 ^ 53 then n + 1
      else if \<bar>n\<bar> < 2 ^ 54 then (if n mod 4 = 2 then n + 2 else n)
      else n)"

text \<open>A value of a type that admits \<open>null\<close> (\<open>T | null\<close>).\<close>

datatype 'a nullable = JsNull | Val 'a

text \<open>DOM nodes: the directive reads \<open>nodeType\<close> only; \<open>node_id\<close> is the node's identity.\<close>

record Node =
  nodeType :: nat
  node_id :: nat

text \<open>\<open>Element | Window\<close>, the type of \<open>scrollTarget\<close>.\<close>

datatype ScrollTarget = TargetElement Node | TargetWindow

text \<open>\<open>Layout | LayoutConstructor | LayoutSpecifier\<close>: opaque to the directive.\<close>

datatype Layout = LayoutRef nat

text \<open>\<open>ScrollToIndexValue\<close>: an index and an optional position.\<close>

datatype ScrollToIndexValue = ScrollToIndexValue int "string option"

text \<open>\<open>PartType\<close> and \<open>PartInfo\<close> of \<open>lit/directive.js\<close>.\<close>

datatype PartType = ATTRIBUTE | CHILD | PROPERTY | BOOLEAN_ATTRIBUTE | EVENT | ELEMENT

record PartInfo =
  part_type :: PartType

text \<open>
  A \<open>ChildPart\<close> is known by its identity; its \<open>parentNode\<close> is a getter that reads the
  document at the time of the call, so the document is a parameter of every operation that
  reads it.
\<close>

type_synonym ChildPart = nat
type_synonym dom = "ChildPart \<Rightarrow> Node option"

definition parentNode :: "dom \<Rightarrow> ChildPart \<Rightarrow> Node option" where
  "parentNode d part = d part"

text \<open>\<open>ScrollConfig\<close>: every field is optional (\<open>None\<close> when omitted).\<close>

record 'r ScrollConfig =
  cfg_renderItem :: "(jsval \<Rightarrow> int \<Rightarrow> 'r) option"
  cfg_keyFunction :: "(jsval \<Rightarrow> jsval) option"
  cfg_layout :: "Layout nullable option"
  cfg_scrollTarget :: "ScrollTarget option"
  cfg_items :: "jsarray option"
  cfg_totalItems :: "int option"
  cfg_scrollToIndex :: "ScrollToIndexValue nullable option"

text \<open>
  Modelled from the spec: the class \<open>VirtualScroller\<close>
  (\<open>uni-virtualizer/lib/VirtualScroller.js\<close>) is not among the sources. The spec gives
  it a constructor taking a container reference and the mutable fields \<open>items\<close>,
  \<open>totalItems\<close>, \<open>layout\<close>, \<open>scrollTarget\<close> and \<open>scrollToIndex\<close>; the record holds the
  value last assigned to each (\<open>None\<close> for \<open>null\<close> or never assigned).
\<close>

record VirtualScroller =
  vs_container :: Node
  vs_items :: jsarray
  vs_totalItems :: int
  vs_layout :: "Layout option"
  vs_scrollTarget :: "ScrollTarget option"
  vs_scrollToIndex :: "ScrollToIndexValue option"

definition new_VirtualScroller :: "Node \<Rightarrow> VirtualScroller" where
  "new_VirtualScroller c =
     \<lparr>vs_container = c, vs_items = array [], vs_totalItems = 0, vs_layout = None,
      vs_scrollTarget = None, vs_scrollToIndex = None\<rparr>"

text \<open>
  What a call returns: \<open>nothing\<close>, or the keyed sequence that \<open>repeat\<close> yields. A call
  that never returns has the result \<open>None\<close>.
\<close>

datatype 'r DirectiveResult = nothing | rendered "(jsval \<times> 'r) list"

text \<open>
  Everything the directive does to its collaborators, in the order it does it:
  constructing the scroller, registering the listener, assigning a field of the scroller,
  queueing a microtask that calls \<open>update\<close> again, and \<open>setValue\<close>.
\<close>

datatype 'r effect =
    Construct Node
  | AddEventListener Node
  | SetItems jsarray
  | SetTotalItems int
  | SetLayout "Layout option"
  | SetScrollTarget "ScrollTarget option"
  | SetScrollToIndex ScrollToIndexValue
  | Microtask ChildPart "'r ScrollConfig"
  | SetValue "'r DirectiveResult"

text \<open>The instance fields of \<open>ScrollDirective\<close> (lines 49 to 55).\<close>

record 'r ScrollDirective =
  container :: "Node option"
  scroller :: "VirtualScroller option"
  first :: int
  last :: int
  renderItem :: "jsval \<Rightarrow> int \<Rightarrow> 'r"
  keyFunction :: "jsval \<Rightarrow> jsval"
  items :: jsarray

definition defaultKeyFunction :: "jsval \<Rightarrow> jsval" where
  "defaultKeyFunction item = item"

text \<open>
  The field initialisers. \<open>defaultRenderItem\<close> wraps \<open>JSON.stringify\<close> in a template; it
  is a parameter, since no claim depends on what it returns.
\<close>

definition initial :: "(jsval \<Rightarrow> int \<Rightarrow> 'r) \<Rightarrow> 'r ScrollDirective" where
  "initial defaultRenderItem =
     \<lparr>container = None, scroller = None, first = 0, last = - 1,
      renderItem = defaultRenderItem, keyFunction = defaultKeyFunction, items = array []\<rparr>"

datatype error = Error string | TypeError

text \<open>The constructor (lines 57 to 62): \<open>super(part)\<close> does nothing that is observed.\<close>

definition constructor :: "(jsval \<Rightarrow> int \<Rightarrow> 'r) \<Rightarrow> PartInfo \<Rightarrow> error + 'r ScrollDirective" where
  "constructor defaultRenderItem part =
     (if part_type part \<noteq> CHILD
      then Inl (Error ''The scroll directive can only be used in child expressions'')
      else Inr (initial defaultRenderItem))"

section \<open>Projection of the range (render)\<close>

text \<open>
  Modelled from the spec: \<open>repeat\<close> of \<open>lit/directives/repeat.js\<close> is not among the
  sources. The spec calls it a keyed-list primitive that accepts \<open>(items, keyFn,
  renderFn)\<close> and yields an ordered list of (key, render output) pairs. It sees only
  the sequence it is given, so the index it hands to \<open>renderFn\<close> is the position in
  that sequence, counted from 0.
\<close>

definition repeat :: "jsval list \<Rightarrow> (jsval \<Rightarrow> jsval) \<Rightarrow> (jsval \<Rightarrow> int \<Rightarrow> 'r) \<Rightarrow> (jsval \<times> 'r) list" where
  "repeat its keyFn template =
     map (\<lambda>(index, item). (keyFn item, template item (int index))) (enumerate 0 its)"

text \<open>
  The \<open>for\<close> loop of lines 71 to 73, \<open>acc\<close> being \<open>itemsToRender\<close>. The loop need not
  end: where \<open>i++\<close> is rounded back to \<open>i\<close> it runs forever, and the result is \<open>None\<close>.
\<close>

partial_function (option) render_loop :: "jsarray \<Rightarrow> int \<Rightarrow> int \<Rightarrow> jsval list \<Rightarrow> jsval list option" where
  "render_loop its i l acc =
     (if i < js_plus1 l then render_loop its (js_plus1 i) l (acc @ [js_index its i])
      else Some acc)"

definition itemsToRender :: "'r ScrollDirective \<Rightarrow> jsval list option" where
  "itemsToRender this =
     (if first this \<ge> 0 \<and> last this \<ge> first this
      then render_loop (items this) (first this) (last this) []
      else Some [])"

text \<open>
  \<open>render(config?)\<close>, lines 64 to 76. The functions of the configuration are stored
  first; a function is truthy, so \<open>config.renderItem || this.renderItem\<close> takes the
  configured one when there is one, and \<open>this.keyFunction || defaultKeyFunction\<close> is
  \<open>this.keyFunction\<close>. The result is \<open>None\<close> when the loop does not end; the functions
  are stored all the same.
\<close>

definition render :: "'r ScrollConfig option \<Rightarrow> 'r ScrollDirective
    \<Rightarrow> 'r DirectiveResult option \<times> 'r ScrollDirective" where
  "render config this =
     (let this1 =
        (case config of
           None \<Rightarrow> this
         | Some c \<Rightarrow>
             this\<lparr>renderItem := (case cfg_renderItem c of Some f \<Rightarrow> f | None \<Rightarrow> renderItem this),
                  keyFunction := (case cfg_keyFunction c of Some f \<Rightarrow> f | None \<Rightarrow> keyFunction this)\<rparr>)
      in (case itemsToRender this1 of
            None \<Rightarrow> None
          | Some its \<Rightarrow> Some (rendered (repeat its (keyFunction this1) (renderItem this1))),
          this1))"

section \<open>Binding and configuration (update)\<close>

text \<open>
  \<open>_initialize(part, config)\<close>, lines 93 to 109. The container is stored whatever it
  is. When it is an element (\<open>nodeType === 1\<close>) the scroller is constructed and the
  \<open>rangeChanged\<close> listener registered; otherwise one microtask is queued that calls
  \<open>update\<close> with the same part and configuration.
\<close>

definition initialize :: "dom \<Rightarrow> ChildPart \<Rightarrow> 'r ScrollConfig \<Rightarrow> 'r ScrollDirective
    \<Rightarrow> bool \<times> 'r ScrollDirective \<times> 'r effect list" where
  "initialize d part config this =
     (let c = parentNode d part; this1 = this\<lparr>container := c\<rparr>
      in case c of
           Some cn \<Rightarrow>
             if nodeType cn = 1
             then (True, this1\<lparr>scroller := Some (new_VirtualScroller cn)\<rparr>,
                   [Construct cn, AddEventListener cn])
             else (False, this1, [Microtask part config])
         | None \<Rightarrow> (False, this1, [Microtask part config]))"

text \<open>
  \<open>config.totalItems || config.items?.length || 0\<close>: a number is truthy when it is not
  zero.
\<close>

definition totalItems_pushed :: "'r ScrollConfig \<Rightarrow> int" where
  "totalItems_pushed config =
     (let from_items =
        (case cfg_items config of
           Some xs \<Rightarrow>
             if int (length (elems xs)) \<noteq> 0 then int (length (elems xs)) else 0
         | None \<Rightarrow> 0)
      in case cfg_totalItems config of
           Some n \<Rightarrow> if n \<noteq> 0 then n else from_items
         | None \<Rightarrow> from_items)"

text \<open>\<open>config.items || []\<close>: an array is truthy, also when it is empty.\<close>

definition items_pushed :: "'r ScrollConfig \<Rightarrow> jsarray" where
  "items_pushed config = (case cfg_items config of Some xs \<Rightarrow> xs | None \<Rightarrow> array [])"

text \<open>\<open>config.layout || null\<close>.\<close>

definition layout_pushed :: "'r ScrollConfig \<Rightarrow> Layout option" where
  "layout_pushed config = (case cfg_layout config of Some (Val l) \<Rightarrow> Some l | _ \<Rightarrow> None)"

text \<open>\<open>config.scrollTarget || this.container\<close>.\<close>

definition scrollTarget_pushed :: "'r ScrollConfig \<Rightarrow> Node option \<Rightarrow> ScrollTarget option" where
  "scrollTarget_pushed config cont =
     (case cfg_scrollTarget config of
        Some t \<Rightarrow> Some t
      | None \<Rightarrow> map_option TargetElement cont)"

text \<open>
  The guard \<open>if (config.scrollToIndex)\<close>: the value that is assigned, if any. An object
  is truthy; \<open>null\<close> and an omitted field are not.
\<close>

definition scrollToIndex_pushed :: "'r ScrollConfig \<Rightarrow> ScrollToIndexValue option" where
  "scrollToIndex_pushed config =
     (case cfg_scrollToIndex config of Some (Val v) \<Rightarrow> Some v | _ \<Rightarrow> None)"

text \<open>
  Lines 80 to 88, for the scroller \<open>s\<close> that \<open>this.scroller\<close> refers to: the assignments
  to its fields in the order of the source, then \<open>render(config)\<close>. The assignments are
  made, and are in the list of effects, also when \<open>render\<close> does not return.
\<close>

definition configure :: "'r ScrollConfig \<Rightarrow> VirtualScroller \<Rightarrow> 'r ScrollDirective
    \<Rightarrow> 'r DirectiveResult option \<times> 'r ScrollDirective \<times> 'r effect list" where
  "configure config s this =
     (let its = items_pushed config;
          total = totalItems_pushed config;
          lay = layout_pushed config;
          target = scrollTarget_pushed config (container this);
          s1 = s\<lparr>vs_items := its, vs_totalItems := total, vs_layout := lay,
                 vs_scrollTarget := target\<rparr>;
          (s2, scrolls) =
            (case scrollToIndex_pushed config of
               Some v \<Rightarrow> (s1\<lparr>vs_scrollToIndex := Some v\<rparr>, [SetScrollToIndex v])
             | None \<Rightarrow> (s1, []));
          (out, this1) = render (Some config) (this\<lparr>items := its, scroller := Some s2\<rparr>)
      in (out, this1,
          [SetItems its, SetTotalItems total, SetLayout lay, SetScrollTarget target] @ scrolls))"

text \<open>
  \<open>update(part, [config])\<close>, lines 78 to 91. The result is \<open>Some\<close> of what the call
  returns, or \<open>None\<close> when it does not return. \<open>scroller!\<close> on \<open>null\<close> would be a
  \<open>TypeError\<close>; \<open>update_never_throws\<close> below shows that this branch is never taken.
\<close>

definition update :: "dom \<Rightarrow> ChildPart \<Rightarrow> 'r ScrollConfig \<Rightarrow> 'r ScrollDirective
    \<Rightarrow> error + ('r DirectiveResult option \<times> 'r ScrollDirective \<times> 'r effect list)" where
  "update d part config this =
     (let (bound, this1, effs) =
        (if scroller this \<noteq> None then (True, this, [])
         else initialize d part config this)
      in if bound
         then (case scroller this1 of
                 None \<Rightarrow> Inl TypeError
               | Some s \<Rightarrow>
                   (case configure config s this1 of
                      (out, this2, effs2) \<Rightarrow> Inr (out, this2, effs @ effs2)))
         else Inr (Some nothing, this1, effs))"

section \<open>Range notifications\<close>

text \<open>
  The listener of lines 97 to 101, called with \<open>detail.first\<close> and \<open>detail.last\<close>. The
  first component of the result is \<open>Some ()\<close> when the listener returns; when \<open>render\<close>
  does not return, \<open>setValue\<close> is never reached.
\<close>

definition on_rangeChanged :: "int \<Rightarrow> int \<Rightarrow> 'r ScrollDirective
    \<Rightarrow> unit option \<times> 'r ScrollDirective \<times> 'r effect list" where
  "on_rangeChanged f l this =
     (let this1 = this\<lparr>first := f\<rparr>;
          this2 = this1\<lparr>last := l\<rparr>
      in case render None this2 of
           (Some out, this3) \<Rightarrow> (Some (), this3, [SetValue out])
         | (None, this3) \<Rightarrow> (None, this3, []))"

section \<open>The directive in its host\<close>

text \<open>
  The host calls \<open>update\<close>, runs the queued microtasks and dispatches \<open>rangeChanged\<close>
  events, in any order. A dispatched event runs the handler once for every listener that
  has been registered. \<open>trace\<close> collects all effects; \<open>queue\<close> holds the microtasks not
  yet run. There is one thread: once a call does not return (\<open>hung\<close>), nothing else runs.
\<close>

record 'r world =
  inst :: "'r ScrollDirective"
  queue :: "(ChildPart \<times> 'r ScrollConfig) list"
  trace :: "'r effect list"
  hung :: bool

datatype 'r event =
    CallUpdate dom ChildPart "'r ScrollConfig"
  | RunMicrotask dom
  | Dispatch int int

fun microtasks :: "'r effect list \<Rightarrow> (ChildPart \<times> 'r ScrollConfig) list" where
  "microtasks [] = []"
| "microtasks (Microtask p c # es) = (p, c) # microtasks es"
| "microtasks (e # es) = microtasks es"

fun is_Construct :: "'r effect \<Rightarrow> bool" where
  "is_Construct (Construct n) = True"
| "is_Construct e = False"

fun is_AddEventListener :: "'r effect \<Rightarrow> bool" where
  "is_AddEventListener (AddEventListener n) = True"
| "is_AddEventListener e = False"

fun is_SetScrollToIndex :: "'r effect \<Rightarrow> bool" where
  "is_SetScrollToIndex (SetScrollToIndex v) = True"
| "is_SetScrollToIndex e = False"

definition call_update :: "dom \<Rightarrow> ChildPart \<Rightarrow> 'r ScrollConfig \<Rightarrow> 'r world \<Rightarrow> 'r world" where
  "call_update d p c w =
     (if hung w then w
      else case update d p c (inst w) of
             Inl e \<Rightarrow> w
           | Inr (out, this1, effs) \<Rightarrow>
               w\<lparr>inst := this1, queue := queue w @ microtasks effs, trace := trace w @ effs,
                 hung := (out = None)\<rparr>)"

definition deliver :: "int \<Rightarrow> int \<Rightarrow> 'r world \<Rightarrow> 'r world" where
  "deliver f l w =
     (if hung w then w
      else case on_rangeChanged f l (inst w) of
             (ret, this1, effs) \<Rightarrow>
               w\<lparr>inst := this1, trace := trace w @ effs, hung := (ret = None)\<rparr>)"

fun step :: "'r event \<Rightarrow> 'r world \<Rightarrow> 'r world" where
  "step (CallUpdate d p c) w = call_update d p c w"
| "step (RunMicrotask d) w =
     (if hung w then w
      else case queue w of
             [] \<Rightarrow> w
           | (p, c) # q \<Rightarrow> call_update d p c (w\<lparr>queue := q\<rparr>))"
| "step (Dispatch f l) w =
     ((deliver f l) ^^ length (filter is_AddEventListener (trace w))) w"

fun run :: "'r event list \<Rightarrow> 'r world \<Rightarrow> 'r world" where
  "run [] w = w"
| "run (e # es) w = run es (step e w)"

definition fresh :: "'r ScrollDirective \<Rightarrow> 'r world" where
  "fresh this = \<lparr>inst = this, queue = [], trace = [], hung = False\<rparr>"

section \<open>Auxiliary notions\<close>

text \<open>The test \<open>container && container.nodeType === 1\<close> of line 95.\<close>

definition is_element :: "Node option \<Rightarrow> bool" where
  "is_element c = (case c of Some n \<Rightarrow> nodeType n = 1 | None \<Rightarrow> False)"

text \<open>The keys of a keyed sequence, in order.\<close>

definition keys_of :: "'r DirectiveResult option \<Rightarrow> jsval list" where
  "keys_of out = (case out of Some (rendered kvs) \<Rightarrow> map fst kvs | _ \<Rightarrow> [])"

text \<open>The scroller after lines 81 to 87 have assigned its fields.\<close>

definition scroller_after :: "'r ScrollConfig \<Rightarrow> Node option \<Rightarrow> VirtualScroller \<Rightarrow> VirtualScroller" where
  "scroller_after c cont s =
     s\<lparr>vs_items := items_pushed c, vs_totalItems := totalItems_pushed c,
       vs_layout := layout_pushed c, vs_scrollTarget := scrollTarget_pushed c cont,
       vs_scrollToIndex := (case scrollToIndex_pushed c of
                              Some v \<Rightarrow> Some v
                            | None \<Rightarrow> vs_scrollToIndex s)\<rparr>"

fun is_Dispatch :: "'r event \<Rightarrow> bool" where
  "is_Dispatch (Dispatch f l) = True"
| "is_Dispatch e = False"


text \<open>The configuration \<open>{}\<close>: every field omitted.\<close>

definition empty_config :: "'r ScrollConfig" where
  "empty_config =
     \<lparr>cfg_renderItem = None, cfg_keyFunction = None, cfg_layout = None,
      cfg_scrollTarget = None, cfg_items = None, cfg_totalItems = None,
      cfg_scrollToIndex = None\<rparr>"

text \<open>The effects of a call of \<open>update\<close>.\<close>

definition effects_of :: "error + ('r DirectiveResult option \<times> 'r ScrollDirective \<times> 'r effect list)
    \<Rightarrow> 'r effect list" where
  "effects_of r = (case r of Inl e \<Rightarrow> [] | Inr (out, this1, effs) \<Rightarrow> effs)"

text \<open>The configuration \<open>{scrollToIndex: {index: 3}}\<close>.\<close>

definition scroll_to_3 :: "'r ScrollConfig" where
  "scroll_to_3 = empty_config\<lparr>cfg_scrollToIndex := Some (Val (ScrollToIndexValue 3 None))\<rparr>"

text \<open>
  A document in which no part has a parent yet, and one in which every part sits in the
  node \<open>n\<close>; \<open>div_element\<close> is an element node.
\<close>

definition detached :: dom where
  "detached part = None"

definition attached :: "Node \<Rightarrow> dom" where
  "attached n part = Some n"

definition div_element :: Node where
  "div_element = \<lparr>nodeType = 1, node_id = 0\<rparr>"

text \<open>
  The invariant of the host: the scroller has been constructed, and the listener
  registered, exactly once when the directive is bound and not at all before.
\<close>

definition bound_once :: "'r world \<Rightarrow> bool" where
  "bound_once w =
     (length (filter is_Construct (trace w)) = (if scroller (inst w) = None then 0 else 1) \<and>
      length (filter is_AddEventListener (trace w)) = (if scroller (inst w) = None then 0 else 1))"

section \<open>The projection as the specification words it\<close>

text \<open>
  \<open>items[i]\<close> as the specification reads it: the item at the index \<open>i\<close>, and
  \<open>undefined\<close> where the items have no such index.
\<close>

definition item_at :: "jsarray \<Rightarrow> int \<Rightarrow> jsval" where
  "item_at xs i = (if i < 0 \<or> int (length (elems xs)) \<le> i then Undefined else elems xs ! nat i)"



text \<open>
  The functions in force in a call of \<open>render\<close>: those of the configuration where it
  gives them, the stored ones otherwise.
\<close>

definition configured_keyFunction :: "'r ScrollConfig option \<Rightarrow> 'r ScrollDirective \<Rightarrow> jsval \<Rightarrow> jsval" where
  "configured_keyFunction config this =
     (case config of
        None \<Rightarrow> keyFunction this
      | Some c \<Rightarrow> (case cfg_keyFunction c of None \<Rightarrow> keyFunction this | Some f \<Rightarrow> f))"

definition configured_renderItem :: "'r ScrollConfig option \<Rightarrow> 'r ScrollDirective \<Rightarrow> jsval \<Rightarrow> int \<Rightarrow> 'r" where
  "configured_renderItem config this =
     (case config of
        None \<Rightarrow> renderItem this
      | Some c \<Rightarrow> (case cfg_renderItem c of None \<Rightarrow> renderItem this | Some f \<Rightarrow> f))"

text \<open>
  The value of \<open>totalItems\<close> as the specification words it: the explicit value if
  provided, else the length of \<open>items\<close>, else 0.
\<close>

definition spec_totalItems :: "'r ScrollConfig \<Rightarrow> int" where
  "spec_totalItems config =
     (case cfg_totalItems config of
        Some n \<Rightarrow> n
      | None \<Rightarrow> (case cfg_items config of Some xs \<Rightarrow> int (length (elems xs)) | None \<Rightarrow> 0))"

section \<open>Facts about arrays and numbers\<close>

lemma length_elems: "length (elems a) < 2 ^ 32"
  by transfer simp

lemma elems_array [simp]: "length xs < 2 ^ 32 \<Longrightarrow> elems (array xs) = xs"
  by transfer simp

lemma elems_array_Nil [simp]: "elems (array []) = []"
  by simp

lemma js_index_item_at: "js_index xs i = item_at xs i"
  by (auto simp: js_index_def item_at_def)

lemma js_plus1_exact: "- 1 \<le> n \<Longrightarrow> n < 2 ^ 53 \<Longrightarrow> js_plus1 n = n + 1"
  by (simp add: js_plus1_def)

lemma js_plus1_rounds_back: "js_plus1 (2 ^ 53) = 2 ^ 53"
  by (simp add: js_plus1_def)

lemma js_plus1_rounds_up: "js_plus1 (2 ^ 53 + 2) = 2 ^ 53 + 4"
  by (simp add: js_plus1_def)

section \<open>Facts about the projection\<close>

lemma render_loop_exact:
  assumes "0 \<le> i" and "i \<le> l + 1" and "l < 2 ^ 53"
  shows "render_loop its i l acc = Some (acc @ map (js_index its) [i..l])"
  using assms
proof (induction "nat (l + 1 - i)" arbitrary: i acc)
  case 0
  then have "js_plus1 l = l + 1" by (simp add: js_plus1_exact)
  with 0 show ?case by (subst render_loop.simps) simp
next
  case (Suc n)
  then have l: "js_plus1 l = l + 1" and i: "js_plus1 i = i + 1" and lt: "i < l + 1"
    by (simp_all add: js_plus1_exact)
  have "render_loop its (i + 1) l (acc @ [js_index its i])
          = Some ((acc @ [js_index its i]) @ map (js_index its) [i + 1..l])"
    using Suc by (intro Suc.hyps(1)) simp_all
  moreover have "[i..l] = i # [i + 1..l]" using lt by (simp add: upto_rec1)
  ultimately show ?case using l i lt by (subst render_loop.simps) simp
qed




lemma itemsToRender_empty:
  "last this < first this \<or> first this < 0 \<Longrightarrow> itemsToRender this = Some []"
  by (auto simp: itemsToRender_def)

lemma itemsToRender_exact:
  "0 \<le> first this \<Longrightarrow> first this \<le> last this \<Longrightarrow> last this < 2 ^ 53 \<Longrightarrow>
   itemsToRender this = Some (map (item_at (items this)) [first this..last this])"
  using render_loop_exact [of "first this" "last this" "items this" "[]"]
  by (simp add: itemsToRender_def js_index_item_at [abs_def])

lemma length_repeat [simp]: "length (repeat xs k t) = length xs"
  by (simp add: repeat_def)

lemma repeat_Nil [simp]: "repeat [] k t = []"
  by (simp add: repeat_def)

lemma nth_repeat: "n < length xs \<Longrightarrow> repeat xs k t ! n = (k (xs ! n), t (xs ! n) (int n))"
  by (simp add: repeat_def nth_enumerate_eq)

lemma map_fst_repeat: "map fst (repeat xs k t) = map k xs"
  by (rule nth_equalityI) (simp_all add: nth_repeat)



lemma itemsToRender_functions [simp]:
  "itemsToRender (this\<lparr>renderItem := r, keyFunction := k\<rparr>) = itemsToRender this"
  by (simp add: itemsToRender_def)

lemma render_eq:
  "render config this =
     (case itemsToRender this of
        None \<Rightarrow> None
      | Some its \<Rightarrow>
          Some (rendered (repeat its (configured_keyFunction config this)
                            (configured_renderItem config this))),
      this\<lparr>renderItem := configured_renderItem config this,
           keyFunction := configured_keyFunction config this\<rparr>)"
proof (cases config)
  case None
  then show ?thesis
    by (simp add: render_def configured_keyFunction_def configured_renderItem_def
        cong: option.case_cong)
next
  case (Some c)
  then show ?thesis
    by (simp add: render_def Let_def configured_keyFunction_def configured_renderItem_def
        cong: option.case_cong)
qed

lemma render_fst:
  "fst (render config this) =
     (case itemsToRender this of
        None \<Rightarrow> None
      | Some its \<Rightarrow>
          Some (rendered (repeat its (configured_keyFunction config this)
                            (configured_renderItem config this))))"
  by (simp add: render_eq)

lemma render_snd_frame:
  "first (snd (render config this)) = first this"
  "last (snd (render config this)) = last this"
  "items (snd (render config this)) = items this"
  "scroller (snd (render config this)) = scroller this"
  "container (snd (render config this)) = container this"
  by (simp_all add: render_eq)

lemma render_snd_functions:
  "keyFunction (snd (render config this)) = configured_keyFunction config this"
  "renderItem (snd (render config this)) = configured_renderItem config this"
  by (simp_all add: render_eq)

lemma render_None_snd [simp]: "snd (render None this) = this"
  by (simp add: render_def)

lemma render_empty:
  "last this < first this \<or> first this < 0 \<Longrightarrow> fst (render config this) = Some (rendered [])"
  by (simp add: render_fst itemsToRender_empty)



section \<open>Facts about update\<close>

lemma configure_eq:
  "configure c s this =
     (fst (render (Some c) (this\<lparr>items := items_pushed c,
                                 scroller := Some (scroller_after c (container this) s)\<rparr>)),
      snd (render (Some c) (this\<lparr>items := items_pushed c,
                                 scroller := Some (scroller_after c (container this) s)\<rparr>)),
      [SetItems (items_pushed c), SetTotalItems (totalItems_pushed c),
       SetLayout (layout_pushed c), SetScrollTarget (scrollTarget_pushed c (container this))]
      @ (case scrollToIndex_pushed c of Some v \<Rightarrow> [SetScrollToIndex v] | None \<Rightarrow> []))"
  by (cases "scrollToIndex_pushed c")
     (simp_all add: configure_def Let_def split_def scroller_after_def)

lemma configure_frame:
  "first (fst (snd (configure c s this))) = first this"
  "last (fst (snd (configure c s this))) = last this"
  "container (fst (snd (configure c s this))) = container this"
  "items (fst (snd (configure c s this))) = items_pushed c"
  "scroller (fst (snd (configure c s this))) = Some (scroller_after c (container this) s)"
  by (simp_all add: configure_eq render_snd_frame)

lemma configure_out_empty:
  "last this < first this \<or> first this < 0 \<Longrightarrow> fst (configure c s this) = Some (rendered [])"
  by (simp add: configure_eq render_empty)

lemma update_bound:
  "scroller this = Some s \<Longrightarrow> update d p c this = Inr (configure c s this)"
  by (simp add: update_def split_def)

lemma update_unbound_invalid:
  "scroller this = None \<Longrightarrow> \<not> is_element (parentNode d p) \<Longrightarrow>
   update d p c this = Inr (Some nothing, this\<lparr>container := parentNode d p\<rparr>, [Microtask p c])"
  by (auto simp: update_def initialize_def is_element_def Let_def split: option.splits)

lemma update_unbound_valid:
  "scroller this = None \<Longrightarrow> parentNode d p = Some n \<Longrightarrow> nodeType n = 1 \<Longrightarrow>
   update d p c this =
     Inr (fst (configure c (new_VirtualScroller n)
                 (this\<lparr>container := Some n, scroller := Some (new_VirtualScroller n)\<rparr>)),
          fst (snd (configure c (new_VirtualScroller n)
                 (this\<lparr>container := Some n, scroller := Some (new_VirtualScroller n)\<rparr>))),
          [Construct n, AddEventListener n] @
          snd (snd (configure c (new_VirtualScroller n)
                 (this\<lparr>container := Some n, scroller := Some (new_VirtualScroller n)\<rparr>))))"
  by (simp add: update_def initialize_def Let_def split_def)

lemma is_elementE: "is_element c \<Longrightarrow> \<exists>n. c = Some n \<and> nodeType n = 1"
  by (auto simp: is_element_def split: option.splits)

lemma update_never_throws: "\<exists>r. update d p c this = Inr r"
proof (cases "scroller this")
  case None
  show ?thesis
  proof (cases "is_element (parentNode d p)")
    case True
    then obtain n where "parentNode d p = Some n" "nodeType n = 1"
      using is_elementE by blast
    with None show ?thesis by (simp add: update_unbound_valid)
  next
    case False
    with None show ?thesis by (simp add: update_unbound_invalid)
  qed
next
  case (Some s)
  then show ?thesis using update_bound by blast
qed

lemma update_cases [case_names deferred configured]:
  assumes "\<lbrakk>scroller this = None; \<not> is_element (parentNode d p);
            update d p c this
              = Inr (Some nothing, this\<lparr>container := parentNode d p\<rparr>, [Microtask p c])\<rbrakk> \<Longrightarrow> P"
    and "\<And>s t pre.
           \<lbrakk>update d p c this
              = Inr (fst (configure c s t), fst (snd (configure c s t)),
                     pre @ snd (snd (configure c s t)));
            first t = first this; last t = last this;
            filter is_SetScrollToIndex pre = []\<rbrakk> \<Longrightarrow> P"
  shows P
proof (cases "scroller this")
  case (Some s)
  then have "update d p c this
      = Inr (fst (configure c s this), fst (snd (configure c s this)),
             [] @ snd (snd (configure c s this)))"
    by (simp add: update_bound)
  then show ?thesis by (rule assms(2)) simp_all
next
  case None
  show ?thesis
  proof (cases "is_element (parentNode d p)")
    case False
    with None show ?thesis by (intro assms(1) update_unbound_invalid)
  next
    case True
    then obtain n where n: "parentNode d p = Some n" "nodeType n = 1"
      using is_elementE by blast
    have "update d p c this =
      Inr (fst (configure c (new_VirtualScroller n)
                 (this\<lparr>container := Some n, scroller := Some (new_VirtualScroller n)\<rparr>)),
          fst (snd (configure c (new_VirtualScroller n)
                 (this\<lparr>container := Some n, scroller := Some (new_VirtualScroller n)\<rparr>))),
          [Construct n, AddEventListener n] @
          snd (snd (configure c (new_VirtualScroller n)
                 (this\<lparr>container := Some n, scroller := Some (new_VirtualScroller n)\<rparr>))))"
      using None n by (rule update_unbound_valid)
    then show ?thesis by (rule assms(2)) simp_all
  qed
qed

lemma configure_scrollToIndex_effect:
  "SetScrollToIndex v \<in> set (snd (snd (configure c s t))) \<longleftrightarrow> scrollToIndex_pushed c = Some v"
  by (auto simp: configure_eq split: option.splits)

lemma scrollToIndex_pushed_Some:
  "scrollToIndex_pushed c = Some v \<longleftrightarrow> cfg_scrollToIndex c = Some (Val v)"
  by (auto simp: scrollToIndex_pushed_def split: option.splits nullable.splits)

lemma update_scrollToIndex_only_if_present:
  assumes "update d p c this = Inr (out, this1, effs)" and "SetScrollToIndex v \<in> set effs"
  shows "cfg_scrollToIndex c = Some (Val v) \<and>
         (\<forall>s1. scroller this1 = Some s1 \<longrightarrow> vs_scrollToIndex s1 = Some v)"
proof (cases rule: update_cases [of this d p c])
  case deferred
  with assms have "effs = [Microtask p c]" by simp
  with assms(2) show ?thesis by simp
next
  case (configured s t pre)
  from configured(1) assms(1)
  have effs: "effs = pre @ snd (snd (configure c s t))"
    and this1: "this1 = fst (snd (configure c s t))"
    by simp_all
  have "SetScrollToIndex v \<notin> set pre"
  proof
    assume "SetScrollToIndex v \<in> set pre"
    then have "SetScrollToIndex v \<in> set (filter is_SetScrollToIndex pre)" by simp
    with configured(4) show False by simp
  qed
  with assms(2) effs have "SetScrollToIndex v \<in> set (snd (snd (configure c s t)))"
    by simp
  then have p: "scrollToIndex_pushed c = Some v"
    by (simp add: configure_scrollToIndex_effect)
  then have "cfg_scrollToIndex c = Some (Val v)"
    by (simp add: scrollToIndex_pushed_Some)
  moreover have "vs_scrollToIndex s1 = Some v" if "scroller this1 = Some s1" for s1
    using that p by (auto simp: this1 configure_frame scroller_after_def)
  ultimately show ?thesis by blast
qed

lemma totalItems_pushed_unless_zero:
  "cfg_totalItems c \<noteq> Some 0 \<Longrightarrow> totalItems_pushed c = spec_totalItems c"
  by (auto simp: totalItems_pushed_def spec_totalItems_def split: option.splits)

section \<open>Facts about the host\<close>

lemma configure_effects_no_binding:
  "filter is_Construct (snd (snd (configure c s this))) = []"
  "filter is_AddEventListener (snd (snd (configure c s this))) = []"
  by (simp_all add: configure_eq split: option.splits)

lemma update_bound_effects:
  assumes "scroller this = Some s"
  shows "\<exists>out this1 effs.
           update d p c this = Inr (out, this1, effs) \<and>
           filter is_Construct effs = [] \<and> filter is_AddEventListener effs = [] \<and>
           scroller this1 = Some (scroller_after c (container this) s)"
proof -
  have "update d p c this =
          Inr (fst (configure c s this), fst (snd (configure c s this)),
               snd (snd (configure c s this)))"
    using assms by (simp add: update_bound)
  then show ?thesis
    by (intro exI conjI)
       (assumption, simp_all add: configure_effects_no_binding configure_frame)
qed

lemma vs_container_scroller_after [simp]:
  "vs_container (scroller_after c cont s) = vs_container s"
  by (simp add: scroller_after_def)

lemma bound_once_call_update:
  assumes "bound_once w"
  shows "bound_once (call_update d p c w)"
proof (cases "scroller (inst w)")
  case (Some s)
  from update_bound_effects [OF Some, of d p c]
  obtain out this1 effs where
    u: "update d p c (inst w) = Inr (out, this1, effs)"
    and e: "filter is_Construct effs = []" "filter is_AddEventListener effs = []"
    and s1: "scroller this1 \<noteq> None"
    by auto
  with assms Some show ?thesis
    by (auto simp: bound_once_def call_update_def)
next
  case None
  show ?thesis
  proof (cases "is_element (parentNode d p)")
    case False
    with assms None show ?thesis
      by (auto simp: bound_once_def call_update_def update_unbound_invalid)
  next
    case True
    then obtain n where n: "parentNode d p = Some n" "nodeType n = 1"
      using is_elementE by blast
    with assms None show ?thesis
      by (auto simp: bound_once_def call_update_def update_unbound_valid
          configure_effects_no_binding configure_frame)
  qed
qed

lemma on_rangeChanged_eq:
  "on_rangeChanged f l this =
     (case fst (render None (this\<lparr>first := f, last := l\<rparr>)) of
        Some out \<Rightarrow> (Some (), this\<lparr>first := f, last := l\<rparr>, [SetValue out])
      | None \<Rightarrow> (None, this\<lparr>first := f, last := l\<rparr>, []))"
  by (simp add: on_rangeChanged_def Let_def render_def split: option.splits)

lemma bound_once_hung [simp]: "bound_once (w\<lparr>hung := h\<rparr>) = bound_once w"
  by (simp add: bound_once_def)

lemma bound_once_deliver:
  "bound_once w \<Longrightarrow> bound_once (deliver f l w)"
  by (auto simp: bound_once_def deliver_def on_rangeChanged_eq split: option.splits)

lemma bound_once_funpow_deliver:
  "bound_once w \<Longrightarrow> bound_once (((deliver f l) ^^ n) w)"
  by (induction n) (simp_all add: bound_once_deliver)

lemma bound_once_queue [simp]: "bound_once (w\<lparr>queue := q\<rparr>) = bound_once w"
  by (simp add: bound_once_def)

lemma bound_once_step: "bound_once w \<Longrightarrow> bound_once (step e w)"
  by (cases e)
     (simp_all add: bound_once_call_update bound_once_funpow_deliver split: list.splits)

lemma bound_once_run: "bound_once w \<Longrightarrow> bound_once (run es w)"
  by (induction es arbitrary: w) (simp_all add: bound_once_step)

lemma bound_once_fresh: "bound_once (fresh (initial dr))"
  by (simp add: bound_once_def fresh_def initial_def)

lemma update_keeps_range:
  assumes "update d p c this = Inr (out, this1, effs)"
  shows "first this1 = first this \<and> last this1 = last this"
proof (cases rule: update_cases [of this d p c])
  case deferred
  with assms show ?thesis by auto
next
  case (configured s t pre)
  with assms have "this1 = fst (snd (configure c s t))" by simp
  with configured show ?thesis by (simp add: configure_frame)
qed

lemma update_binds_when_element:
  assumes "is_element (parentNode d p)" and "update d p c this = Inr (out, this1, effs)"
  shows "scroller this1 \<noteq> None"
proof (cases rule: update_cases [of this d p c])
  case deferred
  with assms(1) show ?thesis by simp
next
  case (configured s t pre)
  with assms(2) have "this1 = fst (snd (configure c s t))" by simp
  then show ?thesis by (simp add: configure_frame)
qed

lemma call_update_keeps_range:
  "first (inst (call_update d p c w)) = first (inst w) \<and>
   last (inst (call_update d p c w)) = last (inst w)"
proof -
  obtain out this1 effs where u: "update d p c (inst w) = Inr (out, this1, effs)"
    using update_never_throws [of d p c "inst w"] by (metis prod_cases3)
  from update_keeps_range [OF u] show ?thesis by (simp add: call_update_def u)
qed

lemma step_keeps_range:
  "\<not> is_Dispatch e \<Longrightarrow>
   first (inst (step e w)) = first (inst w) \<and> last (inst (step e w)) = last (inst w)"
proof (cases e)
  case (CallUpdate d p c)
  then show ?thesis by (simp add: call_update_keeps_range)
next
  case (RunMicrotask d)
  show ?thesis
  proof (cases "queue w")
    case Nil
    with RunMicrotask show ?thesis by simp
  next
    case (Cons pc q)
    obtain p c where "pc = (p, c)" by (cases pc)
    with Cons RunMicrotask call_update_keeps_range [of d p c "w\<lparr>queue := q\<rparr>"]
    show ?thesis by simp
  qed
next
  case (Dispatch f l)
  assume "\<not> is_Dispatch e"
  with Dispatch show ?thesis by simp
qed

lemma run_keeps_range:
  "\<forall>e \<in> set es. \<not> is_Dispatch e \<Longrightarrow>
   first (inst (run es w)) = first (inst w) \<and> last (inst (run es w)) = last (inst w)"
  by (induction es arbitrary: w) (simp_all add: step_keeps_range)

lemma is_element_detached [simp]: "\<not> is_element (parentNode detached p)"
  by (simp add: is_element_def parentNode_def detached_def)

lemma is_element_attached [simp]: "is_element (parentNode (attached div_element) p)"
  by (simp add: is_element_def parentNode_def attached_def div_element_def)

lemma keys_of_render:
  "0 \<le> first this \<Longrightarrow> first this \<le> last this \<Longrightarrow> last this < 2 ^ 53 \<Longrightarrow>
   keys_of (fst (render None this)) =
     map (\<lambda>i. keyFunction this (item_at (items this) i)) [first this..last this]"
  by (simp add: keys_of_def render_fst itemsToRender_exact map_fst_repeat comp_def
      configured_keyFunction_def)

section \<open>Claims\<close>




text \<open>
  C2. Key stability under a slide of the window. For a valid window \<open>(f, l)\<close> with
  \<open>0 \<le> f \<le> l < items.length\<close> that slides to \<open>(f + 1, l + 1)\<close>, every item that is in
  both windows (index \<open>i\<close> with \<open>f + 1 \<le> i \<le> l\<close>) has the same key in both keyed
  sequences, \<open>keyFunction(items[i])\<close>: at position \<open>i - f\<close> before the slide and at
  position \<open>i - (f + 1)\<close> after it.
\<close>

theorem key_stability_under_slide:
  assumes "0 \<le> f" and "f \<le> l" and "l < int (length (elems (items this)))"
    and "f + 1 \<le> i" and "i \<le> l"
  shows "nat (i - f) < length (keys_of (fst (render None (this\<lparr>first := f, last := l\<rparr>)))) \<and>
         nat (i - (f + 1)) < length (keys_of (fst (render None (this\<lparr>first := f + 1, last := l + 1\<rparr>)))) \<and>
         keys_of (fst (render None (this\<lparr>first := f, last := l\<rparr>))) ! nat (i - f)
           = keyFunction this (elems (items this) ! nat i) \<and>
         keys_of (fst (render None (this\<lparr>first := f + 1, last := l + 1\<rparr>))) ! nat (i - (f + 1))
           = keyFunction this (elems (items this) ! nat i)"
proof -
  have "int (length (elems (items this))) < 2 ^ 32"
    using length_elems [of "items this"] by simp
  with assms(3) have l: "l + 1 < 2 ^ 53" by simp
  have old: "keys_of (fst (render None (this\<lparr>first := f, last := l\<rparr>))) =
     map (\<lambda>i. keyFunction this (item_at (items this) i)) [f..l]"
    using assms l by (subst keys_of_render) simp_all
  have new: "keys_of (fst (render None (this\<lparr>first := f + 1, last := l + 1\<rparr>))) =
     map (\<lambda>i. keyFunction this (item_at (items this) i)) [f + 1..l + 1]"
    using assms l by (subst keys_of_render) simp_all
  show ?thesis
    unfolding old new using assms by (simp add: item_at_def)
qed

text \<open>
  The items \<open>a, b, c, d, e\<close> with the window \<open>(1, 3)\<close> sliding to \<open>(2, 4)\<close>: \<open>c\<close>
  (index 2) keeps its key.
\<close>

theorem key_stability_under_slide_witness:
  "(0::int) \<le> 1 \<and> (1::int) \<le> 3 \<and>
   3 < int (length (elems (items
         ((initial Pair)\<lparr>items := array [Str ''a'', Str ''b'', Str ''c'', Str ''d'', Str ''e'']\<rparr>)))) \<and>
   (1::int) + 1 \<le> 2 \<and> (2::int) \<le> 3 \<and>
   keys_of (fst (render None
       ((initial Pair)\<lparr>items := array [Str ''a'', Str ''b'', Str ''c'', Str ''d'', Str ''e''],
                        first := 1, last := 3\<rparr>))) ! nat (2 - 1) = Str ''c'' \<and>
   keys_of (fst (render None
       ((initial Pair)\<lparr>items := array [Str ''a'', Str ''b'', Str ''c'', Str ''d'', Str ''e''],
                        first := 1 + 1, last := 3 + 1\<rparr>))) ! nat (2 - (1 + 1)) = Str ''c''"
  using key_stability_under_slide
    [of 1 3 "(initial Pair)\<lparr>items := array [Str ''a'', Str ''b'', Str ''c'', Str ''d'', Str ''e'']\<rparr>" 2]
  by (simp add: initial_def defaultKeyFunction_def)

text \<open>
  C3. An \<open>update\<close> made while unbound, with a parent that is not an element, returns
  \<open>nothing\<close> and has exactly one effect: one queued microtask that calls \<open>update\<close> with
  the same part and the same configuration. The directive stays unbound, so the retry
  (run from the queue, against the document \<open>d'\<close> of that time) tests the parent again:
  it defers once more when the parent is still not an element, and binds when it is
  (returning a keyed sequence, for a stored range on which \<open>render\<close> returns).
\<close>

theorem unbound_update_defers:
  assumes "scroller this = None" and "\<not> is_element (parentNode d part)"
  shows "update d part config this
           = Inr (Some nothing, this\<lparr>container := parentNode d part\<rparr>, [Microtask part config]) \<and>
         scroller (this\<lparr>container := parentNode d part\<rparr>) = None \<and>
         step (RunMicrotask d') (call_update d part config (fresh this))
           = call_update d' part config
               \<lparr>inst = this\<lparr>container := parentNode d part\<rparr>, queue = [],
                trace = [Microtask part config], hung = False\<rparr> \<and>
         (\<not> is_element (parentNode d' part) \<longrightarrow>
            update d' part config (this\<lparr>container := parentNode d part\<rparr>)
              = Inr (Some nothing, this\<lparr>container := parentNode d' part\<rparr>, [Microtask part config])) \<and>
         (is_element (parentNode d' part) \<longrightarrow>
            (\<exists>n out this1 effs. parentNode d' part = Some n \<and>
               update d' part config (this\<lparr>container := parentNode d part\<rparr>)
                 = Inr (out, this1, Construct n # AddEventListener n # effs) \<and>
               out \<noteq> Some nothing \<and> scroller this1 \<noteq> None \<and>
               (last this < first this \<or> first this < 0 \<or> last this < 2 ^ 53 \<longrightarrow>
                  (\<exists>kvs. out = Some (rendered kvs)))))"
proof -
  let ?this1 = "this\<lparr>container := parentNode d part\<rparr>"
  have u: "update d part config this = Inr (Some nothing, ?this1, [Microtask part config])"
    using assms by (rule update_unbound_invalid)
  have s1: "scroller ?this1 = None" using assms(1) by simp
  have w: "step (RunMicrotask d') (call_update d part config (fresh this))
           = call_update d' part config
               \<lparr>inst = ?this1, queue = [], trace = [Microtask part config], hung = False\<rparr>"
    by (simp add: call_update_def u fresh_def)
  have again: "update d' part config ?this1
                 = Inr (Some nothing, this\<lparr>container := parentNode d' part\<rparr>, [Microtask part config])"
    if "\<not> is_element (parentNode d' part)"
    using update_unbound_invalid [OF s1 that] by simp
  have bind: "\<exists>n out this1 effs. parentNode d' part = Some n \<and>
               update d' part config ?this1
                 = Inr (out, this1, Construct n # AddEventListener n # effs) \<and>
               out \<noteq> Some nothing \<and> scroller this1 \<noteq> None \<and>
               (last this < first this \<or> first this < 0 \<or> last this < 2 ^ 53 \<longrightarrow>
                  (\<exists>kvs. out = Some (rendered kvs)))"
    if "is_element (parentNode d' part)"
  proof -
    from that obtain n where n: "parentNode d' part = Some n" "nodeType n = 1"
      using is_elementE by blast
    let ?t = "?this1\<lparr>container := Some n, scroller := Some (new_VirtualScroller n)\<rparr>"
    let ?r = "configure config (new_VirtualScroller n) ?t"
    have u': "update d' part config ?this1
                = Inr (fst ?r, fst (snd ?r),
                       Construct n # AddEventListener n # snd (snd ?r))"
      using update_unbound_valid [OF s1 n, of config] by simp
    have o: "fst ?r \<noteq> Some nothing"
      by (simp add: configure_eq render_fst split: option.splits)
    have b: "scroller (fst (snd ?r)) \<noteq> None" by (simp add: configure_frame)
    have k: "\<exists>kvs. fst ?r = Some (rendered kvs)"
      if "last this < first this \<or> first this < 0 \<or> last this < 2 ^ 53"
    proof (cases "last this < first this \<or> first this < 0")
      case True
      then show ?thesis by (simp add: configure_out_empty)
    next
      case False
      with that show ?thesis
        by (simp add: configure_eq render_fst itemsToRender_exact)
    qed
    from n(1) u' o b k show ?thesis by blast
  qed
  from u s1 w again bind show ?thesis by blast
qed

text \<open>
  A fresh directive, updated in a document without a parent for the part, then retried
  in the same document and in one where the parent is an element.
\<close>

theorem unbound_update_defers_witness:
  "scroller (initial Pair) = None \<and>
   \<not> is_element (parentNode detached 0) \<and>
   update detached 0 empty_config (initial Pair)
     = Inr (Some nothing, (initial Pair)\<lparr>container := None\<rparr>, [Microtask 0 empty_config]) \<and>
   update detached 0 empty_config ((initial Pair)\<lparr>container := None\<rparr>)
     = Inr (Some nothing, (initial Pair)\<lparr>container := None\<rparr>, [Microtask 0 empty_config]) \<and>
   is_element (parentNode (attached div_element) 0) \<and>
   (\<exists>out this1 effs.
      update (attached div_element) 0 empty_config ((initial Pair)\<lparr>container := None\<rparr>)
        = Inr (Some (rendered out), this1,
               Construct div_element # AddEventListener div_element # effs) \<and>
      scroller this1 \<noteq> None)"
proof -
  have h1: "scroller (initial Pair :: (jsval \<times> int) ScrollDirective) = None"
    by (simp add: initial_def)
  have h2: "\<not> is_element (parentNode detached 0)" by simp
  have p: "parentNode detached 0 = None" "parentNode (attached div_element) 0 = Some div_element"
    by (simp_all add: parentNode_def detached_def attached_def)
  note A = unbound_update_defers [OF h1 h2, of empty_config detached, unfolded p]
  note B = unbound_update_defers [OF h1 h2, of empty_config "attached div_element", unfolded p]
  have e: "is_element (Some div_element)" by (simp add: is_element_def div_element_def)
  have ne: "\<not> is_element None" by (simp add: is_element_def)
  from A have a1: "update detached 0 empty_config (initial Pair)
     = Inr (Some nothing, (initial Pair)\<lparr>container := None\<rparr>, [Microtask 0 empty_config])"
    by (rule conjunct1)
  from A ne have a2: "update detached 0 empty_config ((initial Pair)\<lparr>container := None\<rparr>)
     = Inr (Some nothing, (initial Pair)\<lparr>container := None\<rparr>, [Microtask 0 empty_config])"
    by blast
  from B e have b: "\<exists>out this1 effs.
      update (attached div_element) 0 empty_config ((initial Pair)\<lparr>container := None\<rparr>)
        = Inr (Some (rendered out), this1,
               Construct div_element # AddEventListener div_element # effs) \<and>
      scroller this1 \<noteq> None"
    by (auto simp: initial_def)
  from h1 h2 a1 a2 b show ?thesis by (simp add: p e)
qed

text \<open>
  C4. In every run of the host from a fresh directive the scroller is constructed at most
  once and the listener registered at most once; and an \<open>update\<close> of a bound directive
  constructs nothing, registers nothing and keeps the scroller it has (the scroller of
  the same container, with its fields assigned).
\<close>

theorem scroller_constructed_once:
  "length (filter is_Construct (trace (run es (fresh (initial dr))))) \<le> 1 \<and>
   length (filter is_AddEventListener (trace (run es (fresh (initial dr))))) \<le> 1 \<and>
   (scroller this = Some s \<longrightarrow>
      (\<exists>out this1 effs s1.
         update d p c this = Inr (out, this1, effs) \<and>
         filter is_Construct effs = [] \<and> filter is_AddEventListener effs = [] \<and>
         scroller this1 = Some s1 \<and> vs_container s1 = vs_container s))"
proof -
  have "bound_once (run es (fresh (initial dr)))"
    by (rule bound_once_run [OF bound_once_fresh])
  then have "length (filter is_Construct (trace (run es (fresh (initial dr))))) \<le> 1"
    and "length (filter is_AddEventListener (trace (run es (fresh (initial dr))))) \<le> 1"
    by (simp_all add: bound_once_def)
  moreover have "\<exists>out this1 effs s1.
         update d p c this = Inr (out, this1, effs) \<and>
         filter is_Construct effs = [] \<and> filter is_AddEventListener effs = [] \<and>
         scroller this1 = Some s1 \<and> vs_container s1 = vs_container s"
    if "scroller this = Some s"
    using update_bound_effects [OF that, of d p c] by auto
  ultimately show ?thesis by blast
qed

text \<open>
  A run that defers, binds in the retry, is updated once more and receives a range
  notification; and an update of a bound directive.
\<close>

theorem scroller_constructed_once_witness:
  "length (filter is_Construct (trace (run
      [CallUpdate detached 0 empty_config, RunMicrotask (attached div_element),
       CallUpdate (attached div_element) 0 empty_config, Dispatch 0 1]
      (fresh (initial Pair))))) \<le> 1 \<and>
   length (filter is_AddEventListener (trace (run
      [CallUpdate detached 0 empty_config, RunMicrotask (attached div_element),
       CallUpdate (attached div_element) 0 empty_config, Dispatch 0 1]
      (fresh (initial Pair))))) \<le> 1 \<and>
   scroller ((initial Pair)\<lparr>scroller := Some (new_VirtualScroller div_element)\<rparr>)
     = Some (new_VirtualScroller div_element) \<and>
   (\<exists>out this1 effs s1.
      update detached 0 empty_config
        ((initial Pair)\<lparr>scroller := Some (new_VirtualScroller div_element)\<rparr>)
        = Inr (out, this1, effs) \<and>
      filter is_Construct effs = [] \<and> filter is_AddEventListener effs = [] \<and>
      scroller this1 = Some s1 \<and> vs_container s1 = div_element)"
proof -
  have h: "scroller ((initial Pair)\<lparr>scroller := Some (new_VirtualScroller div_element)\<rparr>)
     = Some (new_VirtualScroller div_element)"
    by simp
  have c: "vs_container (new_VirtualScroller div_element) = div_element"
    by (simp add: new_VirtualScroller_def)
  from scroller_constructed_once
    [of "[CallUpdate detached 0 empty_config, RunMicrotask (attached div_element),
          CallUpdate (attached div_element) 0 empty_config, Dispatch 0 1]" Pair
        "(initial Pair)\<lparr>scroller := Some (new_VirtualScroller div_element)\<rparr>"
        "new_VirtualScroller div_element" detached 0 empty_config]
  show ?thesis unfolding c using h by blast
qed

text \<open>
  C5. The claim has \<open>totalItems\<close> pushed as given whenever it is provided. The code
  pushes \<open>config.totalItems || config.items?.length || 0\<close>, which agrees with the claim
  unless \<open>totalItems\<close> is 0 (lemma \<open>totalItems_pushed_unless_zero\<close>): with
  \<open>{items: [a, b], totalItems: 0}\<close> the specification has 0 and the code assigns 2.
\<close>

theorem totalItems_zero_pushes_length:
  "spec_totalItems (empty_config\<lparr>cfg_items := Some (array [Str ''a'', Str ''b'']), cfg_totalItems := Some 0\<rparr>
                     :: (jsval \<times> int) ScrollConfig) = 0 \<and>
   totalItems_pushed (empty_config\<lparr>cfg_items := Some (array [Str ''a'', Str ''b'']), cfg_totalItems := Some 0\<rparr>
                     :: (jsval \<times> int) ScrollConfig) = 2 \<and>
   effects_of (update (Map.empty(0 := Some \<lparr>nodeType = 1, node_id = 0\<rparr>)) 0
                 (empty_config\<lparr>cfg_items := Some (array [Str ''a'', Str ''b'']), cfg_totalItems := Some 0\<rparr>)
                 (initial Pair))
     = [Construct \<lparr>nodeType = 1, node_id = 0\<rparr>, AddEventListener \<lparr>nodeType = 1, node_id = 0\<rparr>,
        SetItems (array [Str ''a'', Str ''b'']), SetTotalItems 2, SetLayout None,
        SetScrollTarget (Some (TargetElement \<lparr>nodeType = 1, node_id = 0\<rparr>))]"
  by (simp add: spec_totalItems_def totalItems_pushed_def empty_config_def effects_of_def
      update_def initialize_def parentNode_def initial_def configure_eq items_pushed_def
      layout_pushed_def scrollTarget_pushed_def scrollToIndex_pushed_def)

text \<open>
  C6. Of two consecutive calls of \<open>update\<close>, the first leaving the directive bound and
  the second with \<open>scrollToIndex\<close> omitted: the second call does not assign the scroller's
  \<open>scrollToIndex\<close>, whose value stays what it was; and the first call assigned it only
  if its configuration had it, in which case the value is still there after the second.
\<close>

theorem scrollToIndex_sticky:
  assumes "update d1 p1 c1 this = Inr (out1, this1, effs1)"
    and "scroller this1 = Some s1"
    and "cfg_scrollToIndex c2 = None"
  shows "\<exists>out2 this2 effs2 s2.
           update d2 p2 c2 this1 = Inr (out2, this2, effs2) \<and>
           filter is_SetScrollToIndex effs2 = [] \<and>
           scroller this2 = Some s2 \<and>
           vs_scrollToIndex s2 = vs_scrollToIndex s1 \<and>
           (\<forall>v. SetScrollToIndex v \<in> set effs1 \<longrightarrow>
                cfg_scrollToIndex c1 = Some (Val v) \<and> vs_scrollToIndex s2 = Some v)"
proof -
  have none: "scrollToIndex_pushed c2 = None"
    using assms(3) by (simp add: scrollToIndex_pushed_def)
  let ?r = "configure c2 s1 this1"
  let ?s2 = "scroller_after c2 (container this1) s1"
  have k: "vs_scrollToIndex ?s2 = vs_scrollToIndex s1"
    by (simp add: scroller_after_def none)
  show ?thesis
  proof (intro exI conjI)
    show "update d2 p2 c2 this1 = Inr (fst ?r, fst (snd ?r), snd (snd ?r))"
      using assms(2) by (simp add: update_bound)
    show "filter is_SetScrollToIndex (snd (snd ?r)) = []"
      by (simp add: configure_eq none)
    show "scroller (fst (snd ?r)) = Some ?s2"
      by (simp add: configure_frame)
    show "vs_scrollToIndex ?s2 = vs_scrollToIndex s1" by (rule k)
    show "\<forall>v. SetScrollToIndex v \<in> set effs1 \<longrightarrow>
            cfg_scrollToIndex c1 = Some (Val v) \<and> vs_scrollToIndex ?s2 = Some v"
      using update_scrollToIndex_only_if_present [OF assms(1)] assms(2) k by simp
  qed
qed

text \<open>
  A first update that binds and asks for index 3, then an update with the configuration
  \<open>{}\<close>: the request is still index 3.
\<close>

theorem scrollToIndex_sticky_witness:
  "\<exists>out1 this1 effs1 s1 out2 this2 effs2 s2.
     update (attached div_element) 0 scroll_to_3 (initial Pair) = Inr (out1, this1, effs1) \<and>
     scroller this1 = Some s1 \<and>
     cfg_scrollToIndex (empty_config :: (jsval \<times> int) ScrollConfig) = None \<and>
     SetScrollToIndex (ScrollToIndexValue 3 None) \<in> set effs1 \<and>
     update (attached div_element) 0 empty_config this1 = Inr (out2, this2, effs2) \<and>
     filter is_SetScrollToIndex effs2 = [] \<and>
     scroller this2 = Some s2 \<and>
     vs_scrollToIndex s2 = vs_scrollToIndex s1 \<and>
     vs_scrollToIndex s2 = Some (ScrollToIndexValue 3 None)"
proof -
  let ?c1 = "scroll_to_3 :: (jsval \<times> int) ScrollConfig"
  let ?n = div_element
  let ?t = "(initial Pair :: (jsval \<times> int) ScrollDirective)\<lparr>container := Some ?n, scroller := Some (new_VirtualScroller ?n)\<rparr>"
  let ?r = "configure ?c1 (new_VirtualScroller ?n) ?t"
  let ?effs1 = "[Construct ?n, AddEventListener ?n] @ snd (snd ?r)"
  have u1: "update (attached ?n) 0 ?c1 (initial Pair)
              = Inr (fst ?r, fst (snd ?r), ?effs1)"
    by (rule update_unbound_valid)
       (simp_all add: initial_def parentNode_def attached_def div_element_def)
  have s1: "scroller (fst (snd ?r)) = Some (scroller_after ?c1 (container ?t) (new_VirtualScroller ?n))"
    by (simp add: configure_frame)
  have c2: "cfg_scrollToIndex (empty_config :: (jsval \<times> int) ScrollConfig) = None"
    by (simp add: empty_config_def)
  have v: "SetScrollToIndex (ScrollToIndexValue 3 None) \<in> set ?effs1"
    by (simp add: configure_scrollToIndex_effect scrollToIndex_pushed_Some scroll_to_3_def)
  from scrollToIndex_sticky [OF u1 s1 c2, of "attached ?n" 0]
  obtain out2 this2 effs2 s2 where
    "update (attached ?n) 0 empty_config (fst (snd ?r)) = Inr (out2, this2, effs2)"
    "filter is_SetScrollToIndex effs2 = []"
    "scroller this2 = Some s2"
    "vs_scrollToIndex s2 = vs_scrollToIndex (scroller_after ?c1 (container ?t) (new_VirtualScroller ?n))"
    "\<forall>v. SetScrollToIndex v \<in> set ?effs1 \<longrightarrow>
         cfg_scrollToIndex ?c1 = Some (Val v) \<and> vs_scrollToIndex s2 = Some v"
    by blast
  with u1 s1 c2 v show ?thesis by blast
qed




text \<open>
  C8. The constructor throws when the part is not a child part, and returns the
  initialised instance when it is. A failed construction leaves no instance that could
  be updated or rendered.
\<close>

theorem constructor_child_only:
  "(part_type part \<noteq> CHILD \<longrightarrow>
      constructor dr part = Inl (Error ''The scroll directive can only be used in child expressions'')) \<and>
   (part_type part = CHILD \<longrightarrow> constructor dr part = Inr (initial dr))"
  by (simp add: constructor_def)

text \<open>
  An attribute part is refused, a child part accepted.
\<close>

theorem constructor_child_only_witness:
  "part_type \<lparr>part_type = ATTRIBUTE\<rparr> \<noteq> CHILD \<and>
   constructor Pair \<lparr>part_type = ATTRIBUTE\<rparr>
     = Inl (Error ''The scroll directive can only be used in child expressions'') \<and>
   part_type \<lparr>part_type = CHILD\<rparr> = CHILD \<and>
   constructor Pair \<lparr>part_type = CHILD\<rparr> = Inr (initial Pair)"
  using constructor_child_only [of "\<lparr>part_type = ATTRIBUTE\<rparr>" Pair]
    constructor_child_only [of "\<lparr>part_type = CHILD\<rparr>" Pair]
  by simp

text \<open>
  C9. A fresh instance has the range \<open>(0, -1)\<close>, and calls of \<open>update\<close> and retries do
  not change it. So before the first range notification every call of \<open>update\<close>
  returns the empty keyed sequence when it leaves the directive bound (and \<open>nothing\<close>
  when it does not), whatever items are configured.
\<close>

theorem update_before_first_notification:
  assumes "\<forall>e \<in> set es. \<not> is_Dispatch e"
  shows "first (initial dr) = 0 \<and> last (initial dr) = - 1 \<and>
         (\<exists>out this1 effs.
            update d p c (inst (run es (fresh (initial dr)))) = Inr (out, this1, effs) \<and>
            out = Some (if scroller this1 = None then nothing else rendered []))"
proof -
  let ?cur = "inst (run es (fresh (initial dr)))"
  have i: "first (initial dr) = 0 \<and> last (initial dr) = - 1"
    by (simp add: initial_def)
  have r: "first ?cur = 0 \<and> last ?cur = - 1"
    using run_keeps_range [OF assms, of "fresh (initial dr)"]
    by (simp add: fresh_def initial_def)
  have "\<exists>out this1 effs.
          update d p c ?cur = Inr (out, this1, effs) \<and>
          out = Some (if scroller this1 = None then nothing else rendered [])"
  proof (cases rule: update_cases [of ?cur d p c])
    case deferred
    then show ?thesis by simp
  next
    case (configured s t pre)
    from configured(2,3) r have "last t < first t" by simp
    then have "fst (configure c s t) = Some (rendered [])"
      by (simp add: configure_out_empty)
    with configured(1) show ?thesis by (simp add: configure_frame)
  qed
  with i show ?thesis by blast
qed

text \<open>
  A fresh directive that has deferred twice and is then updated, with two items, in a
  document where it can bind: the keyed sequence is empty.
\<close>

theorem update_before_first_notification_witness:
  "\<exists>this1 effs.
     update (attached div_element) 0 (empty_config\<lparr>cfg_items := Some (array [Str ''a'', Str ''b''])\<rparr>)
       (inst (run [CallUpdate detached 0 empty_config, RunMicrotask detached]
                (fresh (initial Pair))))
       = Inr (Some (rendered []), this1, effs) \<and>
     scroller this1 \<noteq> None \<and> items this1 = array [Str ''a'', Str ''b'']"
proof -
  let ?es = "[CallUpdate detached 0 empty_config, RunMicrotask detached]
               :: (jsval \<times> int) event list"
  let ?c = "empty_config\<lparr>cfg_items := Some (array [Str ''a'', Str ''b''])\<rparr> :: (jsval \<times> int) ScrollConfig"
  have h: "\<forall>e \<in> set ?es. \<not> is_Dispatch e" by simp
  from update_before_first_notification [OF h, of Pair "attached div_element" 0 ?c]
  obtain out this1 effs where
    u: "update (attached div_element) 0 ?c (inst (run ?es (fresh (initial Pair))))
          = Inr (out, this1, effs)"
    and o: "out = Some (if scroller this1 = None then nothing else rendered [])"
    by blast
  have b: "scroller this1 \<noteq> None"
    using update_binds_when_element [OF _ u] by simp
  have "items this1 = items_pushed ?c"
  proof (cases rule: update_cases [of "inst (run ?es (fresh (initial Pair)))" "attached div_element" 0 ?c])
    case deferred
    then show ?thesis by simp
  next
    case (configured s t pre)
    with u have "this1 = fst (snd (configure ?c s t))" by simp
    then show ?thesis by (simp add: configure_frame)
  qed
  then have "items this1 = array [Str ''a'', Str ''b'']" by (simp add: items_pushed_def)
  with u o b show ?thesis by auto
qed




end
